theory Spec2Isabelle
  imports Main
begin

section \<open>Data model (include/mpimgr.h)\<close>

text \<open>
  \<^verbatim>\<open>enum class Level\<close>: the eight Syslog levels, in declaration order. The comparison
  \<^verbatim>\<open>level <= this->level\<close> of the source compares the underlying values of the
  enumerators, which \<open>Level_ord\<close> gives.
\<close>

datatype Level =
    Level_emerg
  | Level_alert
  | Level_crit
  | Level_err
  | Level_warning
  | Level_notice
  | Level_info
  | Level_debug

fun Level_ord :: "Level \<Rightarrow> nat" where
  "Level_ord Level_emerg = 0"
| "Level_ord Level_alert = 1"
| "Level_ord Level_crit = 2"
| "Level_ord Level_err = 3"
| "Level_ord Level_warning = 4"
| "Level_ord Level_notice = 5"
| "Level_ord Level_info = 6"
| "Level_ord Level_debug = 7"

text \<open>\<^verbatim>\<open>enum class Ranks\<close>: log on rank zero only, or on all ranks.\<close>

datatype Ranks = Ranks_zero | Ranks_all

text \<open>
  Time points and durations of \<^verbatim>\<open>std::chrono\<close> are tick counts. \<^verbatim>\<open>struct Timer\<close> has
  the fields \<^verbatim>\<open>start\<close>, \<^verbatim>\<open>level\<close> and \<^verbatim>\<open>name\<close>; the level field is \<open>level_t\<close> here, since
  the manager has a field \<^verbatim>\<open>level\<close> of its own.
\<close>

type_synonym time_point = int

type_synonym duration = int

record Timer =
  start :: time_point
  level_t :: Level
  name :: string

text \<open>
  The formatting of \<^verbatim>\<open>fmt/chrono.h\<close> is outside the repository: the two format strings
  the source uses, \<^verbatim>\<open>{:%Y-%m-%d %H:%M:%S}\<close> on a time point and \<^verbatim>\<open>{:%H:%M:%S}\<close> on a
  duration, are the two fields of a parameter.
\<close>

record chrono_fmt =
  fmt_time_point :: "time_point \<Rightarrow> string"
  fmt_duration :: "duration \<Rightarrow> string"

text \<open>
  What a process does to the outside world, in program order: the styled text segments it
  prints with \<^verbatim>\<open>fmt::print\<close> and its calls into the MPI runtime.
\<close>

datatype MPI_Comm = MPI_COMM_WORLD | MPI_COMM_SELF | MPI_COMM_NULL

datatype color = dark_red | red | dark_orange | orange | green | blue | purple

datatype text_style = Bold | Fg color | Plain

datatype event =
    Printed text_style string
  | Barrier_call MPI_Comm
  | Abort_call MPI_Comm int
  | Init_call
  | Finalize_call

text \<open>
  \<^verbatim>\<open>class MPIManager\<close>: the communicator, rank and size, the level and ranks given to the
  constructor, and the stack of timers (a \<^verbatim>\<open>std::vector\<close>, whose back is the end of the
  list). The field \<^verbatim>\<open>size\<close> is \<open>size_mpi\<close>. The field \<open>out\<close> is the history of the
  process's events.
\<close>

record MPIManager =
  comm :: MPI_Comm
  rank :: int
  size_mpi :: int
  level :: Level
  ranks :: Ranks
  timers :: "Timer list"
  out :: "event list"

section \<open>The runtime and the output sink\<close>

definition fmt_print :: "text_style \<Rightarrow> string \<Rightarrow> MPIManager \<Rightarrow> MPIManager" where
  "fmt_print st txt s = s\<lparr>out := out s @ [Printed st txt]\<rparr>"

definition MPI_Barrier :: "MPI_Comm \<Rightarrow> MPIManager \<Rightarrow> MPIManager" where
  "MPI_Barrier c s = s\<lparr>out := out s @ [Barrier_call c]\<rparr>"

definition MPI_Finalize :: "MPIManager \<Rightarrow> MPIManager" where
  "MPI_Finalize s = s\<lparr>out := out s @ [Finalize_call]\<rparr>"

text \<open>\<^verbatim>\<open>EXIT_FAILURE\<close> of \<^verbatim>\<open><cstdlib>\<close>, with its value on POSIX systems.\<close>

definition EXIT_FAILURE :: int where
  "EXIT_FAILURE = 1"

text \<open>The replacement field \<^verbatim>\<open>{}\<close> of fmt on an \<^verbatim>\<open>int\<close>: its decimal digits, with a sign.\<close>

definition digit_char :: "nat \<Rightarrow> char" where
  "digit_char d = ''0123456789'' ! d"

fun show_nat :: "nat \<Rightarrow> string" where
  "show_nat n = (if n < 10 then [digit_char n] else show_nat (n div 10) @ [digit_char (n mod 10)])"

definition show_int :: "int \<Rightarrow> string" where
  "show_int i = (if i < 0 then CHR ''-'' # show_nat (nat (- i)) else show_nat (nat i))"

definition rank_prefix :: "MPIManager \<Rightarrow> string" where
  "rank_prefix s = ''Rank '' @ show_int (rank s) @ '': ''"

definition msg_suffix :: "string \<Rightarrow> string" where
  "msg_suffix msg = '': '' @ msg @ [CHR 0x0A]"

section \<open>The private renderers (src/mpimgr.cpp, lines 174 to 221)\<close>

text \<open>
  Each renderer prints three segments: the rank in bold, the label of the level in the
  colour of the level, and the message with a newline.
\<close>

definition log_emerg :: "string \<Rightarrow> MPIManager \<Rightarrow> MPIManager" where
  "log_emerg msg s =
     (let s1 = fmt_print Bold (rank_prefix s) s;
          s2 = fmt_print (Fg dark_red) ''[EMERG]'' s1
      in fmt_print Plain (msg_suffix msg) s2)"

definition log_alert :: "string \<Rightarrow> MPIManager \<Rightarrow> MPIManager" where
  "log_alert msg s =
     (let s1 = fmt_print Bold (rank_prefix s) s;
          s2 = fmt_print (Fg red) ''[ALERT]'' s1
      in fmt_print Plain (msg_suffix msg) s2)"

definition log_crit :: "string \<Rightarrow> MPIManager \<Rightarrow> MPIManager" where
  "log_crit msg s =
     (let s1 = fmt_print Bold (rank_prefix s) s;
          s2 = fmt_print (Fg dark_orange) ''[CRIT]'' s1
      in fmt_print Plain (msg_suffix msg) s2)"

definition log_err :: "string \<Rightarrow> MPIManager \<Rightarrow> MPIManager" where
  "log_err msg s =
     (let s1 = fmt_print Bold (rank_prefix s) s;
          s2 = fmt_print (Fg orange) ''[ERR]'' s1
      in fmt_print Plain (msg_suffix msg) s2)"

definition log_warning :: "string \<Rightarrow> MPIManager \<Rightarrow> MPIManager" where
  "log_warning msg s =
     (let s1 = fmt_print Bold (rank_prefix s) s;
          s2 = fmt_print (Fg orange) ''[WARNING]'' s1
      in fmt_print Plain (msg_suffix msg) s2)"

definition log_notice :: "string \<Rightarrow> MPIManager \<Rightarrow> MPIManager" where
  "log_notice msg s =
     (let s1 = fmt_print Bold (rank_prefix s) s;
          s2 = fmt_print (Fg green) ''[NOTICE]'' s1
      in fmt_print Plain (msg_suffix msg) s2)"

definition log_info :: "string \<Rightarrow> MPIManager \<Rightarrow> MPIManager" where
  "log_info msg s =
     (let s1 = fmt_print Bold (rank_prefix s) s;
          s2 = fmt_print (Fg blue) ''[INFO]'' s1
      in fmt_print Plain (msg_suffix msg) s2)"

definition log_debug :: "string \<Rightarrow> MPIManager \<Rightarrow> MPIManager" where
  "log_debug msg s =
     (let s1 = fmt_print Bold (rank_prefix s) s;
          s2 = fmt_print (Fg purple) ''[DEBUG]'' s1
      in fmt_print Plain (msg_suffix msg) s2)"

section \<open>The filters (lines 223 to 236)\<close>

definition sufficient_level :: "MPIManager \<Rightarrow> Level \<Rightarrow> bool" where
  "sufficient_level s lvl = (if Level_ord lvl \<le> Level_ord (level s) then True else False)"

definition sufficient_rank :: "MPIManager \<Rightarrow> bool" where
  "sufficient_rank s = (if Ranks_zero = ranks s then 0 = rank s else True)"

section \<open>log (lines 26 to 167)\<close>

text \<open>
  \<^verbatim>\<open>std::views::iota(0, size)\<close> is the range of the indices \<open>0\<close> to \<open>size - 1\<close>. The loop
  that every branch of \<^verbatim>\<open>log\<close> runs on \<^verbatim>\<open>Ranks::all\<close> visits them in order: the process
  whose rank is the index calls the renderer, and every process calls the barrier.
\<close>

definition iota :: "int \<Rightarrow> int \<Rightarrow> int list" where
  "iota lo hi = [lo..hi - 1]"

fun for_ranks :: "(MPIManager \<Rightarrow> MPIManager) \<Rightarrow> int list \<Rightarrow> MPIManager \<Rightarrow> MPIManager" where
  "for_ranks render [] s = s"
| "for_ranks render (i # rest) s =
     for_ranks render rest (MPI_Barrier (comm s) (if rank s = i then render s else s))"

definition log :: "Level \<Rightarrow> string \<Rightarrow> MPIManager \<Rightarrow> MPIManager" where
  "log lvl msg s =
     (if sufficient_rank s \<and> sufficient_level s lvl then
        (case lvl of
            Level_emerg \<Rightarrow>
              (case ranks s of
                 Ranks_zero \<Rightarrow> (if 0 = rank s then log_emerg msg s else s)
               | Ranks_all \<Rightarrow> for_ranks (log_emerg msg) (iota 0 (size_mpi s)) s)
          | Level_alert \<Rightarrow>
              (case ranks s of
                 Ranks_zero \<Rightarrow> (if 0 = rank s then log_alert msg s else s)
               | Ranks_all \<Rightarrow> for_ranks (log_alert msg) (iota 0 (size_mpi s)) s)
          | Level_crit \<Rightarrow>
              (case ranks s of
                 Ranks_zero \<Rightarrow> (if 0 = rank s then log_crit msg s else s)
               | Ranks_all \<Rightarrow> for_ranks (log_crit msg) (iota 0 (size_mpi s)) s)
          | Level_err \<Rightarrow>
              (case ranks s of
                 Ranks_zero \<Rightarrow> (if 0 = rank s then log_err msg s else s)
               | Ranks_all \<Rightarrow> for_ranks (log_err msg) (iota 0 (size_mpi s)) s)
          | Level_warning \<Rightarrow>
              (case ranks s of
                 Ranks_zero \<Rightarrow> (if 0 = rank s then log_warning msg s else s)
               | Ranks_all \<Rightarrow> for_ranks (log_warning msg) (iota 0 (size_mpi s)) s)
          | Level_notice \<Rightarrow>
              (case ranks s of
                 Ranks_zero \<Rightarrow> (if 0 = rank s then log_notice msg s else s)
               | Ranks_all \<Rightarrow> for_ranks (log_notice msg) (iota 0 (size_mpi s)) s)
          | Level_info \<Rightarrow>
              (case ranks s of
                 Ranks_zero \<Rightarrow> (if 0 = rank s then log_info msg s else s)
               | Ranks_all \<Rightarrow> for_ranks (log_info msg) (iota 0 (size_mpi s)) s)
          | Level_debug \<Rightarrow>
              (case ranks s of
                 Ranks_zero \<Rightarrow> (if 0 = rank s then log_debug msg s else s)
               | Ranks_all \<Rightarrow> for_ranks (log_debug msg) (iota 0 (size_mpi s)) s)
        )
      else s)"

section \<open>abort (lines 169 to 172)\<close>

text \<open>
  \<^verbatim>\<open>MPI_Abort\<close> ends the processes of the communicator and does not return: a call of
  \<^verbatim>\<open>abort\<close> has no state after it, only the manager as it is when the group is
  terminated and the status given to the runtime.
\<close>

datatype aborted = Group_aborted MPIManager int

definition MPI_Abort :: "MPI_Comm \<Rightarrow> int \<Rightarrow> MPIManager \<Rightarrow> aborted" where
  "MPI_Abort c status s = Group_aborted (s\<lparr>out := out s @ [Abort_call c status]\<rparr>) status"

definition abort :: "string \<Rightarrow> MPIManager \<Rightarrow> aborted" where
  "abort msg s = (let s1 = log_emerg msg s in MPI_Abort (comm s1) EXIT_FAILURE s1)"

section \<open>The timers (lines 239 to 260)\<close>

text \<open>
  The reading of \<^verbatim>\<open>std::chrono::high_resolution_clock::now()\<close> that a call makes, if it
  makes one, is the argument \<open>now\<close>.
\<close>

definition timer_start :: "chrono_fmt \<Rightarrow> time_point \<Rightarrow> Level \<Rightarrow> string \<Rightarrow> MPIManager \<Rightarrow> MPIManager" where
  "timer_start F now lvl nm s =
     (if sufficient_rank s \<and> sufficient_level s lvl then
        (let s1 = s\<lparr>timers := timers s @ [\<lparr>start = now, level_t = lvl, name = nm\<rparr>]\<rparr>
         in log lvl (''Timer: '' @ [CHR 0x60] @ nm @ [CHR 0x60] @ '' started at: ''
                       @ fmt_time_point F (start (last (timers s1)))) s1)
      else s)"

definition timer_stop :: "chrono_fmt \<Rightarrow> time_point \<Rightarrow> MPIManager \<Rightarrow> MPIManager" where
  "timer_stop F now s =
     (if sufficient_rank s \<and> timers s \<noteq> [] then
        (let end = now;
             timer = last (timers s);
             duration = end - start timer;
             s1 = log (level_t timer)
                    (''Timer: '' @ [CHR 0x60] @ name timer @ [CHR 0x60] @ '' stopped at: ''
                       @ fmt_time_point F end @ '' with duration: '' @ fmt_duration F duration) s
         in s1\<lparr>timers := butlast (timers s1)\<rparr>)
      else s)"

section \<open>Constructor and destructor (lines 3 to 24)\<close>

text \<open>
  The constructor joins the runtime and reads the rank and the size of
  \<^verbatim>\<open>MPI_COMM_WORLD\<close> from it: they are the arguments \<open>world_rank\<close> and \<open>world_size\<close>.
\<close>

definition MPIManager_ctor :: "int \<Rightarrow> int \<Rightarrow> Level \<Rightarrow> Ranks \<Rightarrow> MPIManager" where
  "MPIManager_ctor world_rank world_size lvl rks =
     \<lparr>comm = MPI_COMM_WORLD, rank = world_rank, size_mpi = world_size,
      level = lvl, ranks = rks, timers = [], out = [Init_call]\<rparr>"

text \<open>
  The loop of the destructor, \<^verbatim>\<open>for (auto timer : timers) { timer_stop(); }\<close>, takes the
  two ends of the vector before the first pass and then visits the positions between
  them, while the \<^verbatim>\<open>timer_stop\<close> of each pass pops the back of that same vector. A pass
  first copies the element at its position into \<^verbatim>\<open>timer\<close>. When the position is no longer
  below the length of the vector, that element is a timer which an earlier pass has
  popped and destroyed: the copy reads it all the same, which C++ leaves undefined, and
  the model stops there with a fault. The list argument is the positions still to visit;
  \<open>clk i\<close> is the reading of the clock in the pass at position \<open>i\<close>.
\<close>

datatype fault = Read_of_popped_timer

fun stop_each :: "chrono_fmt \<Rightarrow> (nat \<Rightarrow> time_point) \<Rightarrow> nat list \<Rightarrow> MPIManager \<Rightarrow> fault + MPIManager" where
  "stop_each F clk [] s = Inr s"
| "stop_each F clk (i # rest) s =
     (if i < length (timers s) then
        (let timer = timers s ! i
         in stop_each F clk rest (timer_stop F (clk i) s))
      else Inl Read_of_popped_timer)"

definition MPIManager_dtor :: "chrono_fmt \<Rightarrow> (nat \<Rightarrow> time_point) \<Rightarrow> MPIManager \<Rightarrow> fault + MPIManager" where
  "MPIManager_dtor F clk s =
     (if timers s \<noteq> [] then
        (let s1 = log Level_warning
                    ''Timers are running at the time of environment destruction.'' s
         in case stop_each F clk [0..<length (timers s1)] s1 of
              Inl f \<Rightarrow> Inl f
            | Inr s2 \<Rightarrow> Inr (MPI_Finalize s2))
      else Inr (MPI_Finalize s))"

section \<open>Vocabulary of the properties\<close>

text \<open>
  The line a renderer prints, read off the eight renderers: the colour and the label of
  each level (\<^verbatim>\<open>log_err\<close> and \<^verbatim>\<open>log_warning\<close> share a colour), and the three segments.
\<close>

fun Level_color :: "Level \<Rightarrow> color" where
  "Level_color Level_emerg = dark_red"
| "Level_color Level_alert = red"
| "Level_color Level_crit = dark_orange"
| "Level_color Level_err = orange"
| "Level_color Level_warning = orange"
| "Level_color Level_notice = green"
| "Level_color Level_info = blue"
| "Level_color Level_debug = purple"

fun Level_label :: "Level \<Rightarrow> string" where
  "Level_label Level_emerg = ''[EMERG]''"
| "Level_label Level_alert = ''[ALERT]''"
| "Level_label Level_crit = ''[CRIT]''"
| "Level_label Level_err = ''[ERR]''"
| "Level_label Level_warning = ''[WARNING]''"
| "Level_label Level_notice = ''[NOTICE]''"
| "Level_label Level_info = ''[INFO]''"
| "Level_label Level_debug = ''[DEBUG]''"

definition log_line :: "int \<Rightarrow> Level \<Rightarrow> string \<Rightarrow> event list" where
  "log_line r lvl msg =
     [Printed Bold (''Rank '' @ show_int r @ '': ''),
      Printed (Fg (Level_color lvl)) (Level_label lvl),
      Printed Plain ('': '' @ msg @ [CHR 0x0A])]"

definition emit :: "Level \<Rightarrow> string \<Rightarrow> MPIManager \<Rightarrow> MPIManager" where
  "emit lvl msg s = s\<lparr>out := out s @ log_line (rank s) lvl msg\<rparr>"

text \<open>The printed segments of a history, without the calls into the runtime.\<close>

fun is_print :: "event \<Rightarrow> bool" where
  "is_print (Printed st txt) = True"
| "is_print e = False"

definition prints :: "event list \<Rightarrow> event list" where
  "prints evs = filter is_print evs"

text \<open>
  One pass of the loop of \<^verbatim>\<open>log\<close> at index \<open>i\<close>, as events: the line if the rank is the
  index, then the barrier. \<open>log_trace\<close> is everything a call of \<^verbatim>\<open>log\<close> adds to the
  history.
\<close>

definition phase :: "MPIManager \<Rightarrow> Level \<Rightarrow> string \<Rightarrow> int \<Rightarrow> event list" where
  "phase s lvl msg i =
     (if rank s = i then log_line (rank s) lvl msg else []) @ [Barrier_call (comm s)]"

definition log_trace :: "Level \<Rightarrow> string \<Rightarrow> MPIManager \<Rightarrow> event list" where
  "log_trace lvl msg s =
     (if sufficient_rank s \<and> sufficient_level s lvl then
        (case ranks s of
           Ranks_zero \<Rightarrow> (if 0 = rank s then log_line (rank s) lvl msg else [])
         | Ranks_all \<Rightarrow> concat (map (phase s lvl msg) (iota 0 (size_mpi s))))
      else [])"

text \<open>The rank and the size that the runtime gives to a process: \<open>0 \<le> rank < size\<close>.\<close>

definition valid_identity :: "MPIManager \<Rightarrow> bool" where
  "valid_identity s = (0 \<le> rank s \<and> rank s < size_mpi s)"

text \<open>The messages of the two timer operations.\<close>

definition start_msg :: "chrono_fmt \<Rightarrow> Timer \<Rightarrow> string" where
  "start_msg F t =
     ''Timer: '' @ [CHR 0x60] @ name t @ [CHR 0x60] @ '' started at: ''
       @ fmt_time_point F (start t)"

definition stop_msg :: "chrono_fmt \<Rightarrow> time_point \<Rightarrow> Timer \<Rightarrow> string" where
  "stop_msg F now t =
     ''Timer: '' @ [CHR 0x60] @ name t @ [CHR 0x60] @ '' stopped at: ''
       @ fmt_time_point F now @ '' with duration: '' @ fmt_duration F (now - start t)"

text \<open>Every timer on the stack passes both filters.\<close>

definition stack_passes :: "MPIManager \<Rightarrow> bool" where
  "stack_passes s =
     list_all (\<lambda>t. sufficient_rank s \<and> sufficient_level s (level_t t)) (timers s)"

text \<open>The identity of the process and the configuration of the engine.\<close>

definition identity_config :: "MPIManager \<Rightarrow> MPI_Comm \<times> int \<times> int \<times> Level \<times> Ranks" where
  "identity_config s = (comm s, rank s, size_mpi s, level s, ranks s)"

fun state_at_abort :: "aborted \<Rightarrow> MPIManager" where
  "state_at_abort (Group_aborted s status) = s"

fun exit_status :: "aborted \<Rightarrow> int" where
  "exit_status (Group_aborted s status) = status"

text \<open>
  A client of the manager: the calls it makes between construction and destruction, each
  timer call with the reading of the clock it gets.
\<close>

datatype call =
    Call_log Level string
  | Call_timer_start time_point Level string
  | Call_timer_stop time_point

fun do_call :: "chrono_fmt \<Rightarrow> call \<Rightarrow> MPIManager \<Rightarrow> MPIManager" where
  "do_call F (Call_log lvl msg) s = log lvl msg s"
| "do_call F (Call_timer_start now lvl nm) s = timer_start F now lvl nm s"
| "do_call F (Call_timer_stop now) s = timer_stop F now s"

fun do_calls :: "chrono_fmt \<Rightarrow> call list \<Rightarrow> MPIManager \<Rightarrow> MPIManager" where
  "do_calls F [] s = s"
| "do_calls F (c # cs) s = do_calls F cs (do_call F c s)"

section \<open>The process group\<close>

text \<open>
  One process per rank. A configuration of the group is the list, by rank, of the events
  each process has still to perform, with the sequence of printed segments that a
  collector has seen so far, each with the rank it came from. A process whose next event
  is a print may perform it at any moment (\<open>Run r\<close>). A process whose next event is a
  barrier is blocked until the next event of every process of the group is that barrier
  on the same communicator; then all of them pass it (\<open>Sync\<close>). A scheduler is any list of
  such choices; a choice that is not enabled has no successor.
\<close>

datatype choice = Run nat | Sync

type_synonym group_config = "event list list \<times> (nat \<times> event) list"

fun at_barrier :: "MPI_Comm \<Rightarrow> event list \<Rightarrow> bool" where
  "at_barrier c [] = False"
| "at_barrier c (e # rest) = (e = Barrier_call c)"

fun sched_step :: "MPI_Comm \<Rightarrow> choice \<Rightarrow> group_config \<Rightarrow> group_config option" where
  "sched_step c (Run r) (cfg, seen) =
     (if r < length cfg then
        (case cfg ! r of
           Printed st txt # rest \<Rightarrow> Some (cfg[r := rest], seen @ [(r, Printed st txt)])
         | _ \<Rightarrow> None)
      else None)"
| "sched_step c Sync (cfg, seen) =
     (if cfg \<noteq> [] \<and> list_all (at_barrier c) cfg then Some (map tl cfg, seen) else None)"

fun run_sched :: "MPI_Comm \<Rightarrow> choice list \<Rightarrow> group_config \<Rightarrow> group_config option" where
  "run_sched c [] x = Some x"
| "run_sched c (ch # rest) x =
     (case sched_step c ch x of None \<Rightarrow> None | Some y \<Rightarrow> run_sched c rest y)"

text \<open>
  The managers of a group on communicator \<open>c\<close>, by rank: the process at position \<open>r\<close> has
  rank \<open>r\<close>, all have the size of the group, log on all ranks and pass level \<open>lvl\<close>. Each
  process calls \<^verbatim>\<open>log\<close> at that level, the process of rank \<open>r\<close> with the message
  \<open>msgs r\<close>; \<open>log_events\<close> is what the call adds to the history of the process.
\<close>

definition is_member :: "MPI_Comm \<Rightarrow> Level \<Rightarrow> nat \<Rightarrow> nat \<times> MPIManager \<Rightarrow> bool" where
  "is_member c lvl n p =
     (case p of (r, s) \<Rightarrow>
        comm s = c \<and> rank s = int r \<and> size_mpi s = int n \<and> ranks s = Ranks_all
          \<and> sufficient_level s lvl)"

definition is_group :: "MPI_Comm \<Rightarrow> Level \<Rightarrow> MPIManager list \<Rightarrow> bool" where
  "is_group c lvl procs = list_all (is_member c lvl (length procs)) (enumerate 0 procs)"

definition log_events :: "Level \<Rightarrow> string \<Rightarrow> MPIManager \<Rightarrow> event list" where
  "log_events lvl msg s = drop (length (out s)) (out (log lvl msg s))"

definition group_log :: "Level \<Rightarrow> (nat \<Rightarrow> string) \<Rightarrow> MPIManager list \<Rightarrow> group_config" where
  "group_log lvl msgs procs =
     (map (\<lambda>p. case p of (r, s) \<Rightarrow> log_events lvl (msgs r) s) (enumerate 0 procs), [])"

text \<open>
  The shape of the configurations that the group goes through while every process is in
  that call of \<^verbatim>\<open>log\<close>: \<open>k\<close> barriers have been passed, and the process of rank \<open>k\<close> has
  printed \<open>j\<close> segments of its line. The processes below \<open>k\<close> have only barriers left,
  the processes above \<open>k\<close> wait at a barrier with their line still to come.
\<close>

definition remaining :: "MPI_Comm \<Rightarrow> Level \<Rightarrow> (nat \<Rightarrow> string) \<Rightarrow> nat \<Rightarrow> nat \<Rightarrow> nat \<Rightarrow> nat \<Rightarrow> event list" where
  "remaining c lvl msgs n k j r =
     (if r < k then replicate (n - k) (Barrier_call c)
      else if r = k then
        drop j (log_line (int r) lvl (msgs r)) @ replicate (n - r) (Barrier_call c)
      else
        replicate (r - k) (Barrier_call c) @ log_line (int r) lvl (msgs r)
          @ replicate (n - r) (Barrier_call c))"

definition canon :: "MPI_Comm \<Rightarrow> Level \<Rightarrow> (nat \<Rightarrow> string) \<Rightarrow> nat \<Rightarrow> nat \<Rightarrow> nat \<Rightarrow> event list list" where
  "canon c lvl msgs n k j = map (remaining c lvl msgs n k j) [0..<n]"

text \<open>A formatting for the examples: time points and durations as their tick counts.\<close>

definition plain_ticks :: chrono_fmt where
  "plain_ticks = \<lparr>fmt_time_point = show_int, fmt_duration = show_int\<rparr>"

section \<open>Basic facts\<close>

declare show_nat.simps [simp del]

lemmas renderer_defs =
  log_emerg_def log_alert_def log_crit_def log_err_def
  log_warning_def log_notice_def log_info_def log_debug_def

lemma renderers_emit:
  "log_emerg msg s = emit Level_emerg msg s"
  "log_alert msg s = emit Level_alert msg s"
  "log_crit msg s = emit Level_crit msg s"
  "log_err msg s = emit Level_err msg s"
  "log_warning msg s = emit Level_warning msg s"
  "log_notice msg s = emit Level_notice msg s"
  "log_info msg s = emit Level_info msg s"
  "log_debug msg s = emit Level_debug msg s"
  by (simp_all add: renderer_defs emit_def log_line_def fmt_print_def rank_prefix_def
      msg_suffix_def Let_def)

lemma renderers_emit_fun:
  "log_emerg msg = emit Level_emerg msg"
  "log_alert msg = emit Level_alert msg"
  "log_crit msg = emit Level_crit msg"
  "log_err msg = emit Level_err msg"
  "log_warning msg = emit Level_warning msg"
  "log_notice msg = emit Level_notice msg"
  "log_info msg = emit Level_info msg"
  "log_debug msg = emit Level_debug msg"
  by (rule ext, rule renderers_emit)+

lemma for_ranks_emit:
  "for_ranks (emit lvl msg) idx s = s\<lparr>out := out s @ concat (map (phase s lvl msg) idx)\<rparr>"
proof (induction idx arbitrary: s)
  case Nil
  show ?case by simp
next
  case (Cons i rest)
  let ?s' = "MPI_Barrier (comm s) (if rank s = i then emit lvl msg s else s)"
  have same: "phase ?s' lvl msg = phase s lvl msg"
    by (rule ext) (simp add: phase_def MPI_Barrier_def emit_def)
  have o: "out ?s' = out s @ phase s lvl msg i"
    by (simp add: phase_def MPI_Barrier_def emit_def)
  have upd: "?s'\<lparr>out := xs\<rparr> = s\<lparr>out := xs\<rparr>" for xs
    by (simp add: MPI_Barrier_def emit_def)
  show ?case
    by (simp only: for_ranks.simps Cons.IH same o upd list.map concat.simps append_assoc)
qed

text \<open>A call of \<^verbatim>\<open>log\<close> changes the history only, and adds \<open>log_trace\<close> to it.\<close>

lemma log_eq: "log lvl msg s = s\<lparr>out := out s @ log_trace lvl msg s\<rparr>"
  by (cases lvl; cases "ranks s")
    (simp_all add: log_def log_trace_def renderers_emit renderers_emit_fun emit_def
      for_ranks_emit)

lemma out_log: "out (log lvl msg s) = out s @ log_trace lvl msg s"
  by (subst log_eq) simp

lemma log_fields [simp]:
  "comm (log lvl msg s) = comm s"
  "rank (log lvl msg s) = rank s"
  "size_mpi (log lvl msg s) = size_mpi s"
  "level (log lvl msg s) = level s"
  "ranks (log lvl msg s) = ranks s"
  "timers (log lvl msg s) = timers s"
  by (subst log_eq, simp)+

lemma prints_append [simp]: "prints (xs @ ys) = prints xs @ prints ys"
  by (simp add: prints_def)

lemma prints_log_line [simp]: "prints (log_line r lvl msg) = log_line r lvl msg"
  by (simp add: prints_def log_line_def)

lemma prints_Nil [simp]: "prints [] = []"
  by (simp add: prints_def)

lemma prints_phases:
  "prints (concat (map (phase s lvl msg) [a..b])) =
     (if a \<le> rank s \<and> rank s \<le> b then log_line (rank s) lvl msg else [])"
proof (induction a b rule: upto.induct)
  case (1 a b)
  show ?case
  proof (cases "a \<le> b")
    case True
    have step: "[a..b] = a # [a + 1..b]"
      using True by (simp add: upto_rec1)
    have here: "prints (phase s lvl msg a) = (if rank s = a then log_line (rank s) lvl msg else [])"
      by (simp add: phase_def) (simp add: prints_def)
    show ?thesis
      using True "1.IH" by (auto simp add: step here)
  next
    case False
    then show ?thesis by auto
  qed
qed

text \<open>With a rank in the range of the group, a call that passes prints its line once.\<close>

lemma prints_log_trace:
  assumes "valid_identity s"
  shows "prints (log_trace lvl msg s) =
     (if sufficient_rank s \<and> sufficient_level s lvl then log_line (rank s) lvl msg else [])"
proof (cases "ranks s")
  case Ranks_zero
  then show ?thesis by (auto simp add: log_trace_def sufficient_rank_def)
next
  case Ranks_all
  with assms show ?thesis
    by (simp add: log_trace_def iota_def prints_phases valid_identity_def)
qed

lemma filters_iff:
  "sufficient_rank s \<and> sufficient_level s lvl
     \<longleftrightarrow> (ranks s = Ranks_all \<or> rank s = 0) \<and> Level_ord lvl \<le> Level_ord (level s)"
  by (cases "ranks s") (auto simp add: sufficient_rank_def sufficient_level_def)

section \<open>Claims about log and the filters\<close>

text \<open>
  Claim C1. For every level and message, \<^verbatim>\<open>log\<close> emits the message if and only if both
  filters pass, that is, the selector is all ranks or the rank is 0, and the ordinal of
  the level is at most that of the configured level. When they pass, the process prints
  exactly the line of that level and message; when one fails, the state after the call is
  the state before it. The rank is one the runtime can give: \<open>0 \<le> rank < size\<close>.
\<close>

theorem log_emits_iff_filters_pass:
  assumes "valid_identity s"
  shows "(sufficient_rank s \<and> sufficient_level s lvl
            \<longleftrightarrow> (ranks s = Ranks_all \<or> rank s = 0) \<and> Level_ord lvl \<le> Level_ord (level s))
       \<and> (sufficient_rank s \<and> sufficient_level s lvl
            \<longrightarrow> prints (out (log lvl msg s)) = prints (out s) @ log_line (rank s) lvl msg)
       \<and> (\<not> (sufficient_rank s \<and> sufficient_level s lvl) \<longrightarrow> log lvl msg s = s)"
proof (intro conjI impI)
  show "sufficient_rank s \<and> sufficient_level s lvl
            \<longleftrightarrow> (ranks s = Ranks_all \<or> rank s = 0) \<and> Level_ord lvl \<le> Level_ord (level s)"
    by (rule filters_iff)
next
  assume "sufficient_rank s \<and> sufficient_level s lvl"
  then show "prints (out (log lvl msg s)) = prints (out s) @ log_line (rank s) lvl msg"
    using assms by (simp add: out_log prints_log_trace)
next
  assume "\<not> (sufficient_rank s \<and> sufficient_level s lvl)"
  then show "log lvl msg s = s" by (auto simp add: log_def)
qed

lemma show_int_small [simp]: "show_int 0 = ''0''" "show_int 1 = ''1''"
  by (simp_all add: show_int_def show_nat.simps digit_char_def)

lemma iota_small [simp]: "iota 0 1 = [0]" "iota 0 2 = [0, 1]"
  by (simp_all add: iota_def upto.simps)

theorem log_emits_iff_filters_pass_witness:
  "valid_identity (MPIManager_ctor 1 2 Level_info Ranks_all)
   \<and> prints (out (log Level_notice ''hello'' (MPIManager_ctor 1 2 Level_info Ranks_all)))
       = [Printed Bold ''Rank 1: '', Printed (Fg green) ''[NOTICE]'',
          Printed Plain ('': hello'' @ [CHR 0x0A])]
   \<and> log Level_debug ''hello'' (MPIManager_ctor 1 2 Level_info Ranks_all)
       = MPIManager_ctor 1 2 Level_info Ranks_all
   \<and> log Level_notice ''hello'' (MPIManager_ctor 1 2 Level_info Ranks_zero)
       = MPIManager_ctor 1 2 Level_info Ranks_zero"
proof -
  have v: "valid_identity (MPIManager_ctor 1 2 Level_info Ranks_all)"
    by (simp add: valid_identity_def MPIManager_ctor_def)
  have v0: "valid_identity (MPIManager_ctor 1 2 Level_info Ranks_zero)"
    by (simp add: valid_identity_def MPIManager_ctor_def)
  show ?thesis
    using log_emits_iff_filters_pass [OF v, of Level_notice "''hello''"]
      log_emits_iff_filters_pass [OF v, of Level_debug "''hello''"]
      log_emits_iff_filters_pass [OF v0, of Level_notice "''hello''"] v
    by (simp add: MPIManager_ctor_def sufficient_rank_def sufficient_level_def log_line_def
        prints_def)
qed

text \<open>
  Claim C5. The level filter is monotone: a level that is at most a passing level, in
  the order of the ordinals, passes too, whatever the configured level.
\<close>

theorem sufficient_level_monotone:
  assumes "Level_ord s1 \<le> Level_ord s2" and "sufficient_level s s2"
  shows "sufficient_level s s1"
  using assms by (simp add: sufficient_level_def split: if_splits)

theorem sufficient_level_monotone_witness:
  "Level_ord Level_crit \<le> Level_ord Level_notice
   \<and> sufficient_level (MPIManager_ctor 0 1 Level_info Ranks_zero) Level_notice
   \<and> sufficient_level (MPIManager_ctor 0 1 Level_info Ranks_zero) Level_crit"
proof -
  have a: "Level_ord Level_crit \<le> Level_ord Level_notice" by simp
  have b: "sufficient_level (MPIManager_ctor 0 1 Level_info Ranks_zero) Level_notice"
    by (simp add: sufficient_level_def MPIManager_ctor_def)
  show ?thesis using sufficient_level_monotone [OF a b] a b by simp
qed


section \<open>Claims about abort\<close>

lemma abort_eq:
  "abort msg s =
     Group_aborted
       (s\<lparr>out := out s @ log_line (rank s) Level_emerg msg @ [Abort_call (comm s) EXIT_FAILURE]\<rparr>)
       EXIT_FAILURE"
  by (simp add: abort_def MPI_Abort_def renderers_emit emit_def)

text \<open>
  Claim C3. For every message and every state of the manager, whatever the configured
  level, the selector and the rank, \<^verbatim>\<open>abort\<close> prints exactly one line at emergency level
  with the rank of the caller, then gives the communicator and a non-zero status to
  \<^verbatim>\<open>MPI_Abort\<close>, which ends the group: the call has no state to return to.
\<close>

theorem abort_unconditional:
  "prints (out (state_at_abort (abort msg s))) = prints (out s) @ log_line (rank s) Level_emerg msg
   \<and> out (state_at_abort (abort msg s))
       = out s @ log_line (rank s) Level_emerg msg @ [Abort_call (comm s) EXIT_FAILURE]
   \<and> exit_status (abort msg s) = EXIT_FAILURE
   \<and> exit_status (abort msg s) \<noteq> 0"
  by (simp add: abort_eq EXIT_FAILURE_def) (simp add: prints_def)

theorem abort_unconditional_witness:
  "\<not> sufficient_rank (MPIManager_ctor 1 2 Level_emerg Ranks_zero)
   \<and> out (state_at_abort (abort ''fatal'' (MPIManager_ctor 1 2 Level_emerg Ranks_zero)))
       = [Init_call, Printed Bold ''Rank 1: '', Printed (Fg dark_red) ''[EMERG]'',
          Printed Plain ('': fatal'' @ [CHR 0x0A]), Abort_call MPI_COMM_WORLD 1]
   \<and> exit_status (abort ''fatal'' (MPIManager_ctor 1 2 Level_emerg Ranks_zero)) = 1"
  using abort_unconditional [of "''fatal''" "MPIManager_ctor 1 2 Level_emerg Ranks_zero"]
  by (simp add: MPIManager_ctor_def sufficient_rank_def log_line_def EXIT_FAILURE_def)

section \<open>Claims about the timers\<close>

lemma phase_timers [simp]: "phase (s\<lparr>timers := ts\<rparr>) lvl msg = phase s lvl msg"
  by (rule ext) (simp add: phase_def)

lemma log_trace_timers [simp]: "log_trace lvl msg (s\<lparr>timers := ts\<rparr>) = log_trace lvl msg s"
  by (cases "ranks s") (simp_all add: log_trace_def sufficient_rank_def sufficient_level_def)

lemma timer_start_eq:
  "timer_start F now lvl nm s =
     (if sufficient_rank s \<and> sufficient_level s lvl then
        s\<lparr>timers := timers s @ [\<lparr>start = now, level_t = lvl, name = nm\<rparr>],
          out := out s @ log_trace lvl (start_msg F \<lparr>start = now, level_t = lvl, name = nm\<rparr>) s\<rparr>
      else s)"
  by (simp add: timer_start_def log_eq start_msg_def Let_def)

lemma timer_stop_eq:
  "timer_stop F now s =
     (if sufficient_rank s \<and> timers s \<noteq> [] then
        s\<lparr>timers := butlast (timers s),
          out := out s @ log_trace (level_t (last (timers s))) (stop_msg F now (last (timers s))) s\<rparr>
      else s)"
  by (simp add: timer_stop_def log_eq stop_msg_def Let_def)

text \<open>
  Claim C7. In every state with an empty timer stack, \<^verbatim>\<open>timer_stop\<close> does nothing: the
  state after the call, the history of printed lines in it, is the state before it.
\<close>

theorem timer_stop_empty_noop:
  assumes "timers s = []"
  shows "timer_stop F now s = s"
  using assms by (simp add: timer_stop_def)

theorem timer_stop_empty_noop_witness:
  "timers (MPIManager_ctor 0 1 Level_debug Ranks_all) = []
   \<and> timer_stop plain_ticks 7 (MPIManager_ctor 0 1 Level_debug Ranks_all)
       = MPIManager_ctor 0 1 Level_debug Ranks_all"
proof -
  have e: "timers (MPIManager_ctor 0 1 Level_debug Ranks_all) = []"
    by (simp add: MPIManager_ctor_def)
  show ?thesis using timer_stop_empty_noop [OF e, of plain_ticks 7] e by simp
qed

text \<open>
  Claim C8. For every level and name, \<^verbatim>\<open>timer_start\<close> acts if and only if both filters
  pass: it pushes the timer made of the clock reading, the level and the name on the
  stack, and prints one line at that level with the start message, which names the timer
  and its formatted start time. When a filter fails the state is unchanged. The rank is
  one the runtime can give.
\<close>

theorem timer_start_iff_filters_pass:
  assumes "valid_identity s"
  shows "(sufficient_rank s \<and> sufficient_level s lvl \<longrightarrow>
            timers (timer_start F now lvl nm s)
              = timers s @ [\<lparr>start = now, level_t = lvl, name = nm\<rparr>]
          \<and> prints (out (timer_start F now lvl nm s))
              = prints (out s)
                  @ log_line (rank s) lvl
                      (''Timer: '' @ [CHR 0x60] @ nm @ [CHR 0x60] @ '' started at: ''
                         @ fmt_time_point F now))
       \<and> (\<not> (sufficient_rank s \<and> sufficient_level s lvl) \<longrightarrow> timer_start F now lvl nm s = s)"
  using assms by (simp add: timer_start_eq prints_log_trace start_msg_def)


lemma show_int_digit [simp]:
  "show_int 2 = ''2''" "show_int 3 = ''3''" "show_int 4 = ''4''" "show_int 5 = ''5''"
  "show_int 6 = ''6''" "show_int 7 = ''7''" "show_int 8 = ''8''" "show_int 9 = ''9''"
  by (simp_all add: show_int_def show_nat.simps digit_char_def)

theorem timer_start_iff_filters_pass_witness:
  "valid_identity (MPIManager_ctor 0 1 Level_info Ranks_all)
   \<and> timers (timer_start plain_ticks 5 Level_info ''A'' (MPIManager_ctor 0 1 Level_info Ranks_all))
       = [\<lparr>start = 5, level_t = Level_info, name = ''A''\<rparr>]
   \<and> prints (out (timer_start plain_ticks 5 Level_info ''A''
                    (MPIManager_ctor 0 1 Level_info Ranks_all)))
       = [Printed Bold ''Rank 0: '', Printed (Fg blue) ''[INFO]'',
          Printed Plain ('': Timer: '' @ [CHR 0x60] @ ''A'' @ [CHR 0x60] @ '' started at: 5''
                           @ [CHR 0x0A])]
   \<and> timer_start plain_ticks 5 Level_debug ''A'' (MPIManager_ctor 0 1 Level_info Ranks_all)
       = MPIManager_ctor 0 1 Level_info Ranks_all"
proof -
  have v: "valid_identity (MPIManager_ctor 0 1 Level_info Ranks_all)"
    by (simp add: valid_identity_def MPIManager_ctor_def)
  show ?thesis
    using timer_start_iff_filters_pass [OF v, of Level_info plain_ticks 5 "''A''"]
      timer_start_iff_filters_pass [OF v, of Level_debug plain_ticks 5 "''A''"] v
    by (simp add: MPIManager_ctor_def sufficient_rank_def sufficient_level_def log_line_def
        prints_def plain_ticks_def)
qed

lemma identity_config_eq:
  "identity_config s' = identity_config s \<longleftrightarrow>
     comm s' = comm s \<and> rank s' = rank s \<and> size_mpi s' = size_mpi s
       \<and> level s' = level s \<and> ranks s' = ranks s"
  by (auto simp add: identity_config_def)

lemma filters_same_config:
  assumes "identity_config s' = identity_config s"
  shows "sufficient_rank s' = sufficient_rank s"
    and "sufficient_level s' lvl = sufficient_level s lvl"
    and "valid_identity s' = valid_identity s"
  using assms
  by (simp_all add: identity_config_eq sufficient_rank_def sufficient_level_def
      valid_identity_def)

lemma identity_config_log [simp]: "identity_config (log lvl msg s) = identity_config s"
  by (simp add: identity_config_eq)

lemma identity_config_timer_start [simp]:
  "identity_config (timer_start F now lvl nm s) = identity_config s"
  by (simp add: timer_start_eq identity_config_eq)

lemma identity_config_timer_stop [simp]:
  "identity_config (timer_stop F now s) = identity_config s"
  by (simp add: timer_stop_eq identity_config_eq)

lemma stack_passes_top:
  assumes "stack_passes s" and "timers s \<noteq> []"
  shows "sufficient_rank s \<and> sufficient_level s (level_t (last (timers s)))"
proof -
  have "last (timers s) \<in> set (timers s)"
    using assms(2) by simp
  with assms(1) show ?thesis
    by (simp add: stack_passes_def list_all_iff)
qed

text \<open>What a stop does to a stack whose timers pass the filters.\<close>

lemma timer_stop_passing:
  assumes "valid_identity s" and "stack_passes s" and "timers s \<noteq> []"
  shows "timers (timer_stop F now s) = butlast (timers s)"
    and "prints (out (timer_stop F now s)) =
           prints (out s)
             @ log_line (rank s) (level_t (last (timers s))) (stop_msg F now (last (timers s)))"
  using assms stack_passes_top [OF assms(2,3)]
  by (simp_all add: timer_stop_eq prints_log_trace)

text \<open>
  Claim C6. The timer stack is last in, first out: a stop on a non-empty stack, on a
  rank that passes the rank filter, removes the timer started last and leaves the timers
  below it as they are, and where the timers on the stack pass the filters the line it
  prints is the stop line of that timer. In particular, from an empty stack and with
  both filters passing, starting ``A'', starting ``B'' and stopping once prints the
  start lines of ``A'' and ``B'' and the stop line of ``B'', and leaves ``A'' as the
  only timer on the stack.
\<close>

theorem timer_stack_lifo:
  "(sufficient_rank s \<and> timers s \<noteq> [] \<longrightarrow>
      timers (timer_stop F now s) = butlast (timers s))
   \<and> (valid_identity s \<and> stack_passes s \<and> timers s \<noteq> [] \<longrightarrow>
        prints (out (timer_stop F now s)) =
          prints (out s)
            @ log_line (rank s) (level_t (last (timers s))) (stop_msg F now (last (timers s))))
   \<and> (valid_identity s \<and> sufficient_rank s \<and> sufficient_level s la \<and> sufficient_level s lb
        \<and> timers s = [] \<longrightarrow>
        timers (timer_stop F t3 (timer_start F t2 lb ''B'' (timer_start F t1 la ''A'' s)))
          = [\<lparr>start = t1, level_t = la, name = ''A''\<rparr>]
        \<and> prints (out (timer_stop F t3 (timer_start F t2 lb ''B'' (timer_start F t1 la ''A'' s))))
          = prints (out s)
              @ log_line (rank s) la (start_msg F \<lparr>start = t1, level_t = la, name = ''A''\<rparr>)
              @ log_line (rank s) lb (start_msg F \<lparr>start = t2, level_t = lb, name = ''B''\<rparr>)
              @ log_line (rank s) lb (stop_msg F t3 \<lparr>start = t2, level_t = lb, name = ''B''\<rparr>))"
proof (intro conjI impI)
  assume "sufficient_rank s \<and> timers s \<noteq> []"
  then show "timers (timer_stop F now s) = butlast (timers s)"
    by (simp add: timer_stop_eq)
next
  assume "valid_identity s \<and> stack_passes s \<and> timers s \<noteq> []"
  then show "prints (out (timer_stop F now s)) =
      prints (out s)
        @ log_line (rank s) (level_t (last (timers s))) (stop_msg F now (last (timers s)))"
    by (simp add: timer_stop_passing)
next
  assume a: "valid_identity s \<and> sufficient_rank s \<and> sufficient_level s la
    \<and> sufficient_level s lb \<and> timers s = []"
  let ?A = "\<lparr>start = t1, level_t = la, name = ''A''\<rparr>"
  let ?B = "\<lparr>start = t2, level_t = lb, name = ''B''\<rparr>"
  let ?s1 = "timer_start F t1 la ''A'' s"
  let ?s2 = "timer_start F t2 lb ''B'' ?s1"
  have c1: "identity_config ?s1 = identity_config s" by simp
  have c2: "identity_config ?s2 = identity_config s" by simp
  have r1: "rank ?s1 = rank s" and r2: "rank ?s2 = rank s"
    using identity_config_eq [THEN iffD1, OF c1] identity_config_eq [THEN iffD1, OF c2]
    by simp_all
  have t1: "timers ?s1 = [?A]"
    and p1: "prints (out ?s1) = prints (out s) @ log_line (rank s) la (start_msg F ?A)"
    using a by (simp_all add: timer_start_eq prints_log_trace)
  have pass1: "sufficient_rank ?s1 \<and> sufficient_level ?s1 lb \<and> valid_identity ?s1"
    using a filters_same_config [OF c1] by simp
  have t2: "timers ?s2 = [?A, ?B]"
    using pass1 t1 by (simp add: timer_start_eq [of F t2])
  have p2: "prints (out ?s2) = prints (out ?s1) @ log_line (rank s) lb (start_msg F ?B)"
    using pass1 r1 by (simp add: timer_start_eq [of F t2] prints_log_trace)
  have pass2: "sufficient_rank ?s2 \<and> sufficient_level ?s2 lb \<and> valid_identity ?s2"
    using a filters_same_config [OF c2] by simp
  have t3: "timers (timer_stop F t3 ?s2) = [?A]"
    using pass2 t2 by (simp add: timer_stop_eq [of F t3])
  have p3: "prints (out (timer_stop F t3 ?s2)) =
      prints (out ?s2) @ log_line (rank s) lb (stop_msg F t3 ?B)"
    using pass2 t2 r2 by (simp add: timer_stop_eq [of F t3] prints_log_trace)
  show "timers (timer_stop F t3 ?s2) = [?A]" by (rule t3)
  show "prints (out (timer_stop F t3 ?s2)) =
      prints (out s) @ log_line (rank s) la (start_msg F ?A)
        @ log_line (rank s) lb (start_msg F ?B) @ log_line (rank s) lb (stop_msg F t3 ?B)"
    by (simp only: p3 p2 p1 append_assoc)
qed


theorem timer_stack_lifo_witness:
  "timers (timer_stop plain_ticks 5
      \<lparr>comm = MPI_COMM_WORLD, rank = 0, size_mpi = 1, level = Level_debug, ranks = Ranks_all,
       timers = [\<lparr>start = 1, level_t = Level_info, name = ''A''\<rparr>,
                 \<lparr>start = 2, level_t = Level_notice, name = ''B''\<rparr>],
       out = []\<rparr>)
     = [\<lparr>start = 1, level_t = Level_info, name = ''A''\<rparr>]
   \<and> prints (out (timer_stop plain_ticks 5
      \<lparr>comm = MPI_COMM_WORLD, rank = 0, size_mpi = 1, level = Level_debug, ranks = Ranks_all,
       timers = [\<lparr>start = 1, level_t = Level_info, name = ''A''\<rparr>,
                 \<lparr>start = 2, level_t = Level_notice, name = ''B''\<rparr>],
       out = []\<rparr>))
     = [Printed Bold ''Rank 0: '', Printed (Fg green) ''[NOTICE]'',
        Printed Plain ('': Timer: '' @ [CHR 0x60] @ ''B'' @ [CHR 0x60]
                         @ '' stopped at: 5 with duration: 3'' @ [CHR 0x0A])]
   \<and> timers (timer_stop plain_ticks 5 (timer_start plain_ticks 2 Level_notice ''B''
        (timer_start plain_ticks 1 Level_info ''A'' (MPIManager_ctor 0 1 Level_debug Ranks_all))))
     = [\<lparr>start = 1, level_t = Level_info, name = ''A''\<rparr>]"
  using
    timer_stack_lifo [of
      "\<lparr>comm = MPI_COMM_WORLD, rank = 0, size_mpi = 1, level = Level_debug, ranks = Ranks_all,
        timers = [\<lparr>start = 1, level_t = Level_info, name = ''A''\<rparr>,
                  \<lparr>start = 2, level_t = Level_notice, name = ''B''\<rparr>],
        out = []\<rparr>" plain_ticks 5]
    timer_stack_lifo [of "MPIManager_ctor 0 1 Level_debug Ranks_all" plain_ticks 5
      Level_info Level_notice 5 2 1]
  by (simp add: MPIManager_ctor_def valid_identity_def sufficient_rank_def sufficient_level_def
      stack_passes_def log_line_def stop_msg_def plain_ticks_def prints_def)

section \<open>Frame\<close>

text \<open>
  Claim C9. The communicator, the rank and the size, and the configured level and
  selector, are what the constructor sets them to, and every operation leaves them as
  they are: \<^verbatim>\<open>log\<close>, \<^verbatim>\<open>timer_start\<close>, \<^verbatim>\<open>timer_stop\<close>, and \<^verbatim>\<open>abort\<close> up to the point
  where the group is terminated.
\<close>

theorem identity_and_config_fixed:
  "identity_config (MPIManager_ctor world_rank world_size m rks)
     = (MPI_COMM_WORLD, world_rank, world_size, m, rks)
   \<and> identity_config (log lvl msg s) = identity_config s
   \<and> identity_config (timer_start F now lvl nm s) = identity_config s
   \<and> identity_config (timer_stop F now s) = identity_config s
   \<and> identity_config (state_at_abort (abort msg s)) = identity_config s"
  by (simp add: abort_eq) (simp add: identity_config_def MPIManager_ctor_def)

theorem identity_and_config_fixed_witness:
  "identity_config (timer_start plain_ticks 3 Level_crit ''A''
      (MPIManager_ctor 2 4 Level_notice Ranks_all))
     = (MPI_COMM_WORLD, 2, 4, Level_notice, Ranks_all)
   \<and> identity_config (state_at_abort (abort ''fatal'' (MPIManager_ctor 2 4 Level_notice Ranks_all)))
     = (MPI_COMM_WORLD, 2, 4, Level_notice, Ranks_all)"
  using identity_and_config_fixed [of 2 4 Level_notice Ranks_all Level_crit "''A''"
      "MPIManager_ctor 2 4 Level_notice Ranks_all" plain_ticks 3 "''A''"]
    identity_and_config_fixed [of 2 4 Level_notice Ranks_all Level_crit "''fatal''"
      "MPIManager_ctor 2 4 Level_notice Ranks_all" plain_ticks 3 "''A''"]
  by simp

section \<open>The invariant of the stack\<close>

lemma stack_passes_iff:
  assumes "identity_config s' = identity_config s"
  shows "stack_passes s' \<longleftrightarrow>
     list_all (\<lambda>t. sufficient_rank s \<and> sufficient_level s (level_t t)) (timers s')"
  using filters_same_config(1,2) [OF assms] by (simp add: stack_passes_def)

lemma stack_passes_ctor: "stack_passes (MPIManager_ctor world_rank world_size m rks)"
  by (simp add: stack_passes_def MPIManager_ctor_def)

lemma stack_passes_log:
  assumes "stack_passes s"
  shows "stack_passes (log lvl msg s)"
proof -
  have "list_all (\<lambda>t. sufficient_rank s \<and> sufficient_level s (level_t t))
      (timers (log lvl msg s))"
    using assms by (simp add: stack_passes_def)
  then show ?thesis
    by (simp add: stack_passes_iff [of "log lvl msg s" s])
qed

lemma stack_passes_timer_start:
  assumes "stack_passes s"
  shows "stack_passes (timer_start F now lvl nm s)"
proof -
  have "list_all (\<lambda>t. sufficient_rank s \<and> sufficient_level s (level_t t))
      (timers (timer_start F now lvl nm s))"
    using assms by (auto simp add: timer_start_eq stack_passes_def list_all_iff)
  then show ?thesis
    by (simp add: stack_passes_iff [of "timer_start F now lvl nm s" s])
qed

lemma stack_passes_timer_stop:
  assumes "stack_passes s"
  shows "stack_passes (timer_stop F now s)"
proof -
  have "set (butlast (timers s)) \<subseteq> set (timers s)"
    by (auto dest: in_set_butlastD)
  then have "list_all (\<lambda>t. sufficient_rank s \<and> sufficient_level s (level_t t))
      (timers (timer_stop F now s))"
    using assms by (auto simp add: timer_stop_eq stack_passes_def list_all_iff)
  then show ?thesis
    by (simp add: stack_passes_iff [of "timer_stop F now s" s])
qed

lemma stack_passes_do_calls:
  assumes "stack_passes s"
  shows "stack_passes (do_calls F calls s)"
  using assms
proof (induction calls arbitrary: s)
  case Nil
  then show ?case by simp
next
  case (Cons c cs)
  have "stack_passes (do_call F c s)"
    using Cons.prems
    by (cases c) (simp_all add: stack_passes_log stack_passes_timer_start stack_passes_timer_stop)
  then show ?case by (simp add: Cons.IH)
qed

lemma identity_config_do_calls: "identity_config (do_calls F calls s) = identity_config s"
proof (induction calls arbitrary: s)
  case Nil
  show ?case by simp
next
  case (Cons c cs)
  have "identity_config (do_call F c s) = identity_config s"
    by (cases c) simp_all
  then show ?case by (simp add: Cons.IH)
qed

text \<open>
  Claim C10. In every state that a client reaches from the constructor by calls of
  \<^verbatim>\<open>log\<close>, \<^verbatim>\<open>timer_start\<close> and \<^verbatim>\<open>timer_stop\<close>, every timer on the stack passes the rank
  filter and, at its recorded level, the level filter. So, with a rank the runtime can
  give, a stop on a non-empty stack always prints the stop line of the top timer at the
  level of that timer: the filters inside \<^verbatim>\<open>log\<close> do not suppress it.
\<close>

theorem stacked_timers_pass_filters:
  assumes "s = do_calls F calls (MPIManager_ctor world_rank world_size m rks)"
  shows "(\<forall>t \<in> set (timers s). sufficient_rank s \<and> sufficient_level s (level_t t))
       \<and> (0 \<le> world_rank \<and> world_rank < world_size \<and> timers s \<noteq> [] \<longrightarrow>
            prints (out (timer_stop F now s)) =
              prints (out s)
                @ log_line world_rank (level_t (last (timers s)))
                    (stop_msg F now (last (timers s))))"
proof -
  have sp: "stack_passes s"
    unfolding assms by (rule stack_passes_do_calls, rule stack_passes_ctor)
  have "identity_config s = identity_config (MPIManager_ctor world_rank world_size m rks)"
    unfolding assms by (rule identity_config_do_calls)
  then have id: "rank s = world_rank" "size_mpi s = world_size"
    by (simp_all add: identity_config_def MPIManager_ctor_def)
  have first: "\<forall>t \<in> set (timers s). sufficient_rank s \<and> sufficient_level s (level_t t)"
    using sp by (simp add: stack_passes_def list_all_iff)
  have second: "prints (out (timer_stop F now s)) =
      prints (out s)
        @ log_line world_rank (level_t (last (timers s))) (stop_msg F now (last (timers s)))"
    if "0 \<le> world_rank \<and> world_rank < world_size \<and> timers s \<noteq> []"
  proof -
    have "valid_identity s" using that id by (simp add: valid_identity_def)
    then show ?thesis
      using timer_stop_passing(2) [of s F now] sp that id by simp
  qed
  show ?thesis using first second by blast
qed


theorem stacked_timers_pass_filters_witness:
  "timers (do_calls plain_ticks [Call_timer_start 1 Level_notice ''X'', Call_log Level_debug ''m'']
             (MPIManager_ctor 0 1 Level_info Ranks_all))
     = [\<lparr>start = 1, level_t = Level_notice, name = ''X''\<rparr>]
   \<and> sufficient_level (MPIManager_ctor 0 1 Level_info Ranks_all) Level_notice
   \<and> prints (out (timer_stop plain_ticks 4
        (do_calls plain_ticks [Call_timer_start 1 Level_notice ''X'', Call_log Level_debug ''m'']
           (MPIManager_ctor 0 1 Level_info Ranks_all))))
     = prints (out (do_calls plain_ticks
           [Call_timer_start 1 Level_notice ''X'', Call_log Level_debug ''m'']
           (MPIManager_ctor 0 1 Level_info Ranks_all)))
       @ [Printed Bold ''Rank 0: '', Printed (Fg green) ''[NOTICE]'',
          Printed Plain ('': Timer: '' @ [CHR 0x60] @ ''X'' @ [CHR 0x60]
                           @ '' stopped at: 4 with duration: 3'' @ [CHR 0x0A])]"
proof -
  have t: "timers (do_calls plain_ticks
        [Call_timer_start 1 Level_notice ''X'', Call_log Level_debug ''m'']
        (MPIManager_ctor 0 1 Level_info Ranks_all))
      = [\<lparr>start = 1, level_t = Level_notice, name = ''X''\<rparr>]"
    by (simp add: timer_start_eq MPIManager_ctor_def sufficient_rank_def sufficient_level_def)
  show ?thesis
    using stacked_timers_pass_filters [OF refl, of plain_ticks
        "[Call_timer_start 1 Level_notice ''X'', Call_log Level_debug ''m'']"
        0 1 Level_info Ranks_all 4] t
    by (simp add: log_line_def stop_msg_def plain_ticks_def)
      (simp add: MPIManager_ctor_def sufficient_level_def)
qed


section \<open>The destructor\<close>





text \<open>
  From two open timers on, the loop of the destructor reaches a position that its own
  pops have removed from the vector, and reads a popped timer: in pass \<open>i\<close> the vector
  has \<open>i\<close> timers fewer than at entry. The model has the fault for every stack of two or
  more timers that pass the filters.
\<close>

lemma stop_each_fault:
  assumes "sufficient_rank s" and "i < n" and "length (timers s) + i \<le> 2 * (n - 1)"
  shows "stop_each F clk [i..<n] s = Inl Read_of_popped_timer"
  using assms
proof (induction "n - i" arbitrary: i s)
  case 0
  then show ?case by simp
next
  case (Suc d)
  have cons: "[i..<n] = i # [Suc i..<n]"
    using Suc.prems(2) by (simp add: upt_conv_Cons)
  show ?case
  proof (cases "i < length (timers s)")
    case False
    then show ?thesis by (simp add: cons)
  next
    case True
    let ?s' = "timer_stop F (clk i) s"
    have ne: "timers s \<noteq> []"
      using True by auto
    have len: "length (timers ?s') = length (timers s) - 1"
      using Suc.prems(1) ne by (simp add: timer_stop_eq)
    have rk: "sufficient_rank ?s'"
      using Suc.prems(1) filters_same_config(1) [of ?s' s] by simp
    have lt: "Suc i < n"
      using True Suc.prems(3) by linarith
    have bound: "length (timers ?s') + Suc i \<le> 2 * (n - 1)"
      using True Suc.prems(3) by (simp add: len)
    have d: "d = n - Suc i"
      using Suc.hyps(2) by simp
    from Suc.hyps(1) [OF d rk lt bound]
    show ?thesis
      using True by (simp add: cons Let_def)
  qed
qed

lemma dtor_fault_from_two_timers:
  assumes "stack_passes s" and "2 \<le> length (timers s)"
  shows "MPIManager_dtor F clk s = Inl Read_of_popped_timer"
proof -
  let ?w = "log Level_warning ''Timers are running at the time of environment destruction.'' s"
  have "0 < length (timers s)"
    using assms(2) by linarith
  then have ne: "timers s \<noteq> []"
    by simp
  have "sufficient_rank s"
    using stack_passes_top [OF assms(1) ne] by simp
  then have rk: "sufficient_rank ?w"
    using filters_same_config(1) [of ?w s] by simp
  have l: "length (timers ?w) = length (timers s)"
    by simp
  have "stop_each F clk [0..<length (timers ?w)] ?w = Inl Read_of_popped_timer"
  proof (rule stop_each_fault [OF rk])
    show "0 < length (timers ?w)"
      unfolding l using assms(2) by arith
    show "length (timers ?w) + 0 \<le> 2 * (length (timers ?w) - 1)"
      unfolding l using assms(2) by arith
  qed
  then show ?thesis
    using ne by (simp add: MPIManager_dtor_def Let_def)
qed


lemma dtor_fault_two_timers_example:
  "MPIManager_dtor plain_ticks (\<lambda>k. 4)
     \<lparr>comm = MPI_COMM_WORLD, rank = 0, size_mpi = 1, level = Level_debug, ranks = Ranks_all,
      timers = [\<lparr>start = 1, level_t = Level_info, name = ''A''\<rparr>,
                \<lparr>start = 2, level_t = Level_info, name = ''B''\<rparr>],
      out = [Init_call]\<rparr>
     = Inl Read_of_popped_timer"
  by (rule dtor_fault_from_two_timers)
    (simp_all add: stack_passes_def sufficient_rank_def sufficient_level_def)


section \<open>The barrier protocol\<close>

text \<open>The events of one process in the loop: barriers, with its line at its own index.\<close>

lemma phases_shape:
  "concat (map (phase s lvl msg) [a..b]) =
     (if a \<le> rank s \<and> rank s \<le> b then
        replicate (nat (rank s - a)) (Barrier_call (comm s)) @ log_line (rank s) lvl msg
          @ replicate (nat (b - rank s + 1)) (Barrier_call (comm s))
      else replicate (nat (b - a + 1)) (Barrier_call (comm s)))"
proof (induction a b rule: upto.induct)
  case (1 a b)
  show ?case
  proof (cases "a \<le> b")
    case False
    then show ?thesis by auto
  next
    case True
    have step: "[a..b] = a # [a + 1..b]"
      using True by (simp add: upto_rec1)
    note IH = "1.IH" [OF True]
    consider "rank s = a" | "a < rank s" "rank s \<le> b" | "rank s < a" | "b < rank s"
      by linarith
    then show ?thesis
    proof cases
      case 1
      have "nat (b - a + 1) = Suc (nat (b - a))"
        using True by simp
      with 1 True IH show ?thesis
        by (simp add: step phase_def)
    next
      case 2
      have "nat (rank s - a) = Suc (nat (rank s - (a + 1)))"
        using 2 by simp
      with 2 IH show ?thesis
        by (simp add: step phase_def)
    next
      case 3
      have "nat (b - a + 1) = Suc (nat (b - (a + 1) + 1))"
        using True by simp
      with 3 IH show ?thesis
        by (simp add: step phase_def)
    next
      case 4
      have "nat (b - a + 1) = Suc (nat (b - (a + 1) + 1))"
        using True by simp
      with 4 True IH show ?thesis
        by (simp add: step phase_def)
    qed
  qed
qed

lemma log_events_eq: "log_events lvl msg s = log_trace lvl msg s"
  by (simp add: log_events_def out_log)

lemma member_events:
  assumes "is_member c lvl n (r, s)" and "r < n"
  shows "log_events lvl msg s =
     replicate r (Barrier_call c) @ log_line (int r) lvl msg @ replicate (n - r) (Barrier_call c)"
proof -
  from assms(1) have f: "comm s = c" "rank s = int r" "size_mpi s = int n"
    "ranks s = Ranks_all" "sufficient_level s lvl"
    by (simp_all add: is_member_def)
  have "sufficient_rank s"
    using f(4) by (simp add: sufficient_rank_def)
  then have "log_events lvl msg s = concat (map (phase s lvl msg) [0..int n - 1])"
    using f by (simp add: log_events_eq log_trace_def iota_def)
  also have "\<dots> = replicate r (Barrier_call c) @ log_line (int r) lvl msg
      @ replicate (n - r) (Barrier_call c)"
  proof -
    have "nat (int n - 1 - int r + 1) = n - r"
      using assms(2) by simp
    then show ?thesis
      using assms(2) f by (simp add: phases_shape)
  qed
  finally show ?thesis .
qed

lemma is_group_member:
  assumes "is_group c lvl procs" and "r < length procs"
  shows "is_member c lvl (length procs) (r, procs ! r)"
proof -
  have "(r, procs ! r) \<in> set (enumerate 0 procs)"
    using assms(2) by (simp add: in_set_enumerate_eq)
  with assms(1) show ?thesis
    by (simp add: is_group_def list_all_iff)
qed

lemma remaining_start:
  assumes "r < n"
  shows "remaining c lvl msgs n 0 0 r =
     replicate r (Barrier_call c) @ log_line (int r) lvl (msgs r)
       @ replicate (n - r) (Barrier_call c)"
  by (simp add: remaining_def)

lemma group_log_canon:
  assumes "is_group c lvl procs"
  shows "group_log lvl msgs procs = (canon c lvl msgs (length procs) 0 0, [])"
proof -
  have "map (\<lambda>p. case p of (r, s) \<Rightarrow> log_events lvl (msgs r) s) (enumerate 0 procs)
      = canon c lvl msgs (length procs) 0 0"
  proof (rule nth_equalityI)
    show "length (map (\<lambda>p. case p of (r, s) \<Rightarrow> log_events lvl (msgs r) s) (enumerate 0 procs))
        = length (canon c lvl msgs (length procs) 0 0)"
      by (simp add: canon_def)
  next
    fix r
    assume "r < length (map (\<lambda>p. case p of (r, s) \<Rightarrow> log_events lvl (msgs r) s)
      (enumerate 0 procs))"
    then have r: "r < length procs" by simp
    have "log_events lvl (msgs r) (procs ! r) = remaining c lvl msgs (length procs) 0 0 r"
      using member_events [OF is_group_member [OF assms r] r] remaining_start [OF r]
      by simp
    then show "map (\<lambda>p. case p of (r, s) \<Rightarrow> log_events lvl (msgs r) s) (enumerate 0 procs) ! r
        = canon c lvl msgs (length procs) 0 0 ! r"
      using r by (simp add: canon_def nth_enumerate_eq)
  qed
  then show ?thesis by (simp add: group_log_def)
qed


lemma canon_length [simp]: "length (canon c lvl msgs n k j) = n"
  by (simp add: canon_def)

lemma canon_nth [simp]:
  "r < n \<Longrightarrow> canon c lvl msgs n k j ! r = remaining c lvl msgs n k j r"
  by (simp add: canon_def)

lemma line_next:
  assumes "j < 3"
  shows "\<exists>st txt. drop j (log_line r lvl msg) = Printed st txt # drop (Suc j) (log_line r lvl msg)"
proof -
  consider "j = 0" | "j = 1" | "j = 2"
    using assms by linarith
  then show ?thesis
    by cases (simp_all add: log_line_def)
qed

lemma line_done: "3 \<le> j \<Longrightarrow> drop j (log_line r lvl msg) = []"
  by (simp add: log_line_def)

lemma run_blocked:
  assumes "cfg ! r = [] \<or> (\<exists>rest. cfg ! r = Barrier_call c' # rest)"
  shows "sched_step c (Run r) (cfg, seen) = None"
  using assms by auto

text \<open>The only process that can run is the one whose turn it is, and it prints.\<close>

lemma step_run:
  assumes "sched_step c (Run r) (canon c lvl msgs n k j, seen) = Some (cfg', seen')"
  shows "r = k \<and> k < n \<and> cfg' = canon c lvl msgs n k (Suc j) \<and> (\<exists>e. seen' = seen @ [(k, e)])"
proof -
  let ?cfg = "canon c lvl msgs n k j"
  have rn: "r < n"
    using assms by (simp split: if_splits)
  have not_blocked: "\<not> (?cfg ! r = [] \<or> (\<exists>rest. ?cfg ! r = Barrier_call c # rest))"
    using assms run_blocked [of ?cfg r c c seen] by auto
  have rk: "r = k"
  proof (rule ccontr)
    assume "r \<noteq> k"
    then consider "r < k" | "k < r" by linarith
    then show False
    proof cases
      case 1
      then have "?cfg ! r = replicate (n - k) (Barrier_call c)"
        using rn by (simp add: remaining_def)
      then show False
        using not_blocked by (cases "n - k") auto
    next
      case 2
      then obtain m where "r - k = Suc m"
        by (cases "r - k") auto
      then have "?cfg ! r = Barrier_call c # replicate m (Barrier_call c)
          @ log_line (int r) lvl (msgs r) @ replicate (n - r) (Barrier_call c)"
        using rn 2 by (simp add: remaining_def)
      then show False
        using not_blocked by auto
    qed
  qed
  have at_k: "?cfg ! k = drop j (log_line (int k) lvl (msgs k)) @ replicate (n - k) (Barrier_call c)"
    using rn rk by (simp add: remaining_def)
  have j3: "j < 3"
  proof (rule ccontr)
    assume "\<not> j < 3"
    then have "?cfg ! k = replicate (n - k) (Barrier_call c)"
      using at_k by (simp add: line_done)
    then show False
      using not_blocked rk by (cases "n - k") auto
  qed
  from line_next [OF j3] obtain sty tx where
    nxt: "drop j (log_line (int k) lvl (msgs k))
      = Printed sty tx # drop (Suc j) (log_line (int k) lvl (msgs k))"
    by blast
  have res: "cfg' = ?cfg[k := drop (Suc j) (log_line (int k) lvl (msgs k))
        @ replicate (n - k) (Barrier_call c)]"
    "seen' = seen @ [(k, Printed sty tx)]"
    using assms rn rk at_k nxt by simp_all
  have "?cfg[k := drop (Suc j) (log_line (int k) lvl (msgs k))
      @ replicate (n - k) (Barrier_call c)] = canon c lvl msgs n k (Suc j)"
  proof (rule nth_equalityI)
    show "length (?cfg[k := drop (Suc j) (log_line (int k) lvl (msgs k))
        @ replicate (n - k) (Barrier_call c)]) = length (canon c lvl msgs n k (Suc j))"
      by simp
  next
    fix i
    assume "i < length (?cfg[k := drop (Suc j) (log_line (int k) lvl (msgs k))
        @ replicate (n - k) (Barrier_call c)])"
    then have "i < n" by simp
    then show "?cfg[k := drop (Suc j) (log_line (int k) lvl (msgs k))
        @ replicate (n - k) (Barrier_call c)] ! i = canon c lvl msgs n k (Suc j) ! i"
      by (cases "i = k") (simp_all add: remaining_def)
  qed
  with res rk rn show ?thesis by auto
qed

text \<open>The barrier is passed only when the line of the current rank is complete.\<close>

lemma step_sync:
  assumes "sched_step c Sync (canon c lvl msgs n k j, seen) = Some (cfg', seen')"
  shows "k < n \<and> cfg' = canon c lvl msgs n (Suc k) 0 \<and> seen' = seen"
proof -
  let ?cfg = "canon c lvl msgs n k j"
  have n0: "0 < n"
    using assms by (cases n) (simp_all add: canon_def split: if_splits)
  have all: "\<And>r. r < n \<Longrightarrow> at_barrier c (remaining c lvl msgs n k j r)"
    using assms by (simp add: canon_def list_all_iff split: if_splits)
  have res: "cfg' = map tl ?cfg" "seen' = seen"
    using assms by (simp_all split: if_splits)
  have kn: "k < n"
  proof (rule ccontr)
    assume "\<not> k < n"
    then have "remaining c lvl msgs n k j 0 = []"
      using n0 by (simp add: remaining_def)
    then show False
      using all [OF n0] by simp
  qed
  have j3: "3 \<le> j"
  proof (rule ccontr)
    assume "\<not> 3 \<le> j"
    then have "j < 3" by simp
    from line_next [OF this] obtain sty tx where
      "drop j (log_line (int k) lvl (msgs k))
        = Printed sty tx # drop (Suc j) (log_line (int k) lvl (msgs k))"
      by blast
    then have "\<not> at_barrier c (remaining c lvl msgs n k j k)"
      by (simp add: remaining_def)
    then show False
      using all [OF kn] by simp
  qed
  have "map tl ?cfg = canon c lvl msgs n (Suc k) 0"
  proof (rule nth_equalityI)
    show "length (map tl ?cfg) = length (canon c lvl msgs n (Suc k) 0)"
      by simp
  next
    fix i
    assume "i < length (map tl ?cfg)"
    then have i: "i < n" by simp
    consider "i < k" | "i = k" | "i = Suc k" | "Suc k < i"
      by linarith
    then have "tl (remaining c lvl msgs n k j i) = remaining c lvl msgs n (Suc k) 0 i"
    proof cases
      case 1
      then show ?thesis
        by (simp add: remaining_def tl_replicate)
    next
      case 2
      then show ?thesis
        using j3 by (simp add: remaining_def line_done tl_replicate)
    next
      case 3
      then show ?thesis
        by (simp add: remaining_def)
    next
      case 4
      then obtain m where "i - k = Suc m"
        by (cases "i - k") auto
      moreover from this 4 have "i - Suc k = m" by simp
      ultimately show ?thesis
        using 4 by (simp add: remaining_def)
    qed
    then show "map tl ?cfg ! i = canon c lvl msgs n (Suc k) 0 ! i"
      using i by simp
  qed
  with res kn show ?thesis by simp
qed

text \<open>
  Along any schedule the configuration keeps its shape, the ranks seen so far are at
  most the number of barriers passed, and they are in order.
\<close>

lemma run_sched_sorted:
  assumes "run_sched c sched (canon c lvl msgs n k j, seen) = Some (cfg', seen')"
    and "sorted (map fst seen)" and "\<forall>p \<in> set seen. fst p \<le> k"
  shows "sorted (map fst seen')"
  using assms
proof (induction sched arbitrary: k j seen)
  case Nil
  then show ?case by simp
next
  case (Cons ch rest)
  from Cons.prems(1) obtain y where
    st: "sched_step c ch (canon c lvl msgs n k j, seen) = Some y"
    and rn: "run_sched c rest y = Some (cfg', seen')"
    by (auto split: option.splits)
  obtain cfg1 seen1 where y: "y = (cfg1, seen1)"
    by (cases y)
  show ?case
  proof (cases ch)
    case (Run r)
    from step_run [OF st [unfolded Run y]] obtain e where
      s1: "cfg1 = canon c lvl msgs n k (Suc j)" "seen1 = seen @ [(k, e)]"
      by blast
    have "sorted (map fst seen1)"
      using Cons.prems(2,3) by (auto simp add: s1 sorted_append)
    moreover have "\<forall>p \<in> set seen1. fst p \<le> k"
      using Cons.prems(3) by (simp add: s1)
    ultimately show ?thesis
      using Cons.IH [of k "Suc j" seen1] rn by (simp add: y s1(1))
  next
    case Sync
    from step_sync [OF st [unfolded Sync y]]
    have s1: "cfg1 = canon c lvl msgs n (Suc k) 0" "seen1 = seen"
      by simp_all
    have "\<forall>p \<in> set seen1. fst p \<le> Suc k"
      using Cons.prems(3) by (auto simp add: s1 le_Suc_eq)
    then show ?thesis
      using Cons.IH [of "Suc k" 0 seen1] rn Cons.prems(2) by (simp add: y s1)
  qed
qed

text \<open>
  Claim C4. On all ranks and with the level passing, a call of \<^verbatim>\<open>log\<close> adds to the
  history of the process, for each index from 0 to size - 1 in increasing order, its
  line if its rank is the index, and then a barrier, whether it printed or not. So when
  the processes of a group all make that call, under any schedule of the processes in
  which a barrier is passed only once every process has reached it, the segments that a
  collector sees come in non-decreasing order of rank.
\<close>

theorem log_round_robin_ordered:
  "(ranks s = Ranks_all \<and> sufficient_level s lvl \<longrightarrow>
      out (log lvl msg s) = out s @ concat (map (phase s lvl msg) (iota 0 (size_mpi s))))
   \<and> (is_group c lvl procs \<and> run_sched c sched (group_log lvl msgs procs) = Some (cfg, seen) \<longrightarrow>
        sorted (map fst seen))"
proof (intro conjI impI)
  assume "ranks s = Ranks_all \<and> sufficient_level s lvl"
  then show "out (log lvl msg s) = out s @ concat (map (phase s lvl msg) (iota 0 (size_mpi s)))"
    by (simp add: out_log log_trace_def sufficient_rank_def)
next
  assume a: "is_group c lvl procs \<and> run_sched c sched (group_log lvl msgs procs) = Some (cfg, seen)"
  then have "run_sched c sched (canon c lvl msgs (length procs) 0 0, []) = Some (cfg, seen)"
    using group_log_canon [of c lvl procs msgs] by simp
  from run_sched_sorted [OF this] show "sorted (map fst seen)"
    by simp
qed


theorem log_round_robin_ordered_witness:
  "is_group MPI_COMM_WORLD Level_notice
     [MPIManager_ctor 0 2 Level_info Ranks_all, MPIManager_ctor 1 2 Level_info Ranks_all]
   \<and> out (log Level_notice ''hi'' (MPIManager_ctor 1 2 Level_info Ranks_all))
       = [Init_call, Barrier_call MPI_COMM_WORLD,
          Printed Bold ''Rank 1: '', Printed (Fg green) ''[NOTICE]'',
          Printed Plain ('': hi'' @ [CHR 0x0A]), Barrier_call MPI_COMM_WORLD]
   \<and> run_sched MPI_COMM_WORLD [Run 0, Run 0, Run 0, Sync, Run 1, Run 1, Run 1, Sync]
        (group_log Level_notice (\<lambda>r. ''hi'')
           [MPIManager_ctor 0 2 Level_info Ranks_all, MPIManager_ctor 1 2 Level_info Ranks_all])
       = Some ([[], []],
           [(0, Printed Bold ''Rank 0: ''), (0, Printed (Fg green) ''[NOTICE]''),
            (0, Printed Plain ('': hi'' @ [CHR 0x0A])),
            (1, Printed Bold ''Rank 1: ''), (1, Printed (Fg green) ''[NOTICE]''),
            (1, Printed Plain ('': hi'' @ [CHR 0x0A]))])
   \<and> sorted (map fst
        [(0::nat, Printed Bold ''Rank 0: ''), (0, Printed (Fg green) ''[NOTICE]''),
         (0, Printed Plain ('': hi'' @ [CHR 0x0A])),
         (1, Printed Bold ''Rank 1: ''), (1, Printed (Fg green) ''[NOTICE]''),
         (1, Printed Plain ('': hi'' @ [CHR 0x0A]))])"
proof -
  let ?procs = "[MPIManager_ctor 0 2 Level_info Ranks_all, MPIManager_ctor 1 2 Level_info Ranks_all]"
  let ?seen = "[(0::nat, Printed Bold ''Rank 0: ''), (0, Printed (Fg green) ''[NOTICE]''),
         (0, Printed Plain ('': hi'' @ [CHR 0x0A])),
         (1, Printed Bold ''Rank 1: ''), (1, Printed (Fg green) ''[NOTICE]''),
         (1, Printed Plain ('': hi'' @ [CHR 0x0A]))]"
  have g: "is_group MPI_COMM_WORLD Level_notice ?procs"
    by (simp add: is_group_def is_member_def MPIManager_ctor_def sufficient_level_def)
  have r: "run_sched MPI_COMM_WORLD [Run 0, Run 0, Run 0, Sync, Run 1, Run 1, Run 1, Sync]
      (group_log Level_notice (\<lambda>r. ''hi'') ?procs) = Some ([[], []], ?seen)"
    by (simp add: group_log_def log_events_def log_eq log_trace_def phase_def log_line_def
        MPIManager_ctor_def sufficient_rank_def sufficient_level_def)
  have p: "ranks (MPIManager_ctor 1 2 Level_info Ranks_all) = Ranks_all
      \<and> sufficient_level (MPIManager_ctor 1 2 Level_info Ranks_all) Level_notice"
    by (simp add: MPIManager_ctor_def sufficient_level_def)
  from log_round_robin_ordered [of "MPIManager_ctor 1 2 Level_info Ranks_all" Level_notice
      "''hi''" MPI_COMM_WORLD ?procs
      "[Run 0, Run 0, Run 0, Sync, Run 1, Run 1, Run 1, Sync]" "\<lambda>r. ''hi''" "[[], []]" ?seen]
    g r p
  have "out (log Level_notice ''hi'' (MPIManager_ctor 1 2 Level_info Ranks_all))
      = out (MPIManager_ctor 1 2 Level_info Ranks_all)
          @ concat (map (phase (MPIManager_ctor 1 2 Level_info Ranks_all) Level_notice ''hi'')
              (iota 0 (size_mpi (MPIManager_ctor 1 2 Level_info Ranks_all))))"
    and srt: "sorted (map fst ?seen)"
    by blast+
  then have "out (log Level_notice ''hi'' (MPIManager_ctor 1 2 Level_info Ranks_all))
       = [Init_call, Barrier_call MPI_COMM_WORLD,
          Printed Bold ''Rank 1: '', Printed (Fg green) ''[NOTICE]'',
          Printed Plain ('': hi'' @ [CHR 0x0A]), Barrier_call MPI_COMM_WORLD]"
    by (simp add: MPIManager_ctor_def phase_def log_line_def)
  with g r srt show ?thesis by blast
qed


text \<open>
  The barrier does gate the output: in the same group of two, the process of rank 1
  cannot print before the first barrier, and the barrier cannot be passed before the
  process of rank 0 has printed its whole line.
\<close>

lemma rank_one_waits:
  "run_sched MPI_COMM_WORLD [Run 1]
     (group_log Level_notice (\<lambda>r. ''hi'')
        [MPIManager_ctor 0 2 Level_info Ranks_all, MPIManager_ctor 1 2 Level_info Ranks_all])
     = None
   \<and> run_sched MPI_COMM_WORLD [Run 0, Sync]
     (group_log Level_notice (\<lambda>r. ''hi'')
        [MPIManager_ctor 0 2 Level_info Ranks_all, MPIManager_ctor 1 2 Level_info Ranks_all])
     = None"
  by (simp add: group_log_def log_events_def log_eq log_trace_def phase_def log_line_def
      MPIManager_ctor_def sufficient_rank_def sufficient_level_def)

end
